theory Spec2Isabelle
  imports Complex_Main "HOL-Library.Product_Lexorder" "HOL-Library.Log_Nat"
begin

section \<open>Data model\<close>

text \<open>
  The comparison statistics of the CarCompare application: the route handler
  \<^verbatim>\<open>compare_car_listings\<close> of \<^verbatim>\<open>app/main.py\<close>, the helper
  \<^verbatim>\<open>compute_comparison_stats\<close> of \<^verbatim>\<open>tests/integration/test_car_compare.py\<close>
  and the price and mileage validators of \<^verbatim>\<open>app/schemas/listing.py\<close>.

  A UUID is a 128-bit number, modelled as a natural number. A Python \<^verbatim>\<open>float\<close> is a
  binary64 number and is modelled by the rational number it stands for. Every addition and
  division of the source is followed by the rounding of IEEE 754: the exact result is replaced
  by the nearest number with 53 significant bits, a tie going to the even one
  (\<open>double_of\<close> below). The exponent range of binary64 (overflow above about 1.8e308, gradual
  underflow below about 2.2e-308), infinities and NaN are not part of the model: prices are
  limited to 10,000,000 on entry and a mileage is a database integer.
\<close>

type_synonym uuid = nat

type_synonym pyfloat = rat

text \<open>The exceptions the modelled code can raise; \<open>HTTPException\<close> carries the status code.\<close>

datatype error =
  HTTPException nat string
| ZeroDivisionError
| ValueError string
| IndexError
| TypeError

text \<open>The columns of \<^verbatim>\<open>Listing\<close> and \<^verbatim>\<open>Car\<close> that the statistics read.\<close>

record listing =
  listing_id :: uuid
  car_id :: uuid
  price :: pyfloat
  mileage :: "int option"

record car =
  car_ident :: uuid
  user_id :: uuid

text \<open>The tables behind the database session.\<close>

record db =
  cars :: "car list"
  listings :: "listing list"

text \<open>The response schema \<^verbatim>\<open>CarCompareStats\<close>; the helper returns a dict with the same keys.\<close>

record CarCompareStats =
  count :: nat
  min_price :: "pyfloat option"
  max_price :: "pyfloat option"
  avg_price :: "pyfloat option"
  avg_price_per_mile :: "pyfloat option"
  best_deal_listing_id :: "uuid option"

section \<open>Python primitives\<close>

definition bindE :: "error + 'a \<Rightarrow> ('a \<Rightarrow> error + 'b) \<Rightarrow> error + 'b" where
  "bindE m f = (case m of Inl e \<Rightarrow> Inl e | Inr v \<Rightarrow> f v)"

text \<open>Rounding to the nearest integer, a tie going to the even one.\<close>

definition round_half_even :: "rat \<Rightarrow> int" where
  "round_half_even y =
     (let f = \<lfloor>y\<rfloor>; d = y - of_int f
      in if d < 1 / 2 then f else if d > 1 / 2 then f + 1
         else if even f then f else f + 1)"

text \<open>The power of two with an integer exponent.\<close>

definition pow2 :: "int \<Rightarrow> rat" where
  "pow2 e = (if 0 \<le> e then 2 ^ nat e else 1 / 2 ^ nat (- e))"

text \<open>The binary exponent of a positive rational \<open>p / q\<close>: the \<open>e\<close> with
  \<open>2^e \<le> p / q < 2^(e + 1)\<close>, found from the bit lengths of \<open>p\<close> and \<open>q\<close>.\<close>

definition ilog2 :: "rat \<Rightarrow> int" where
  "ilog2 x =
     (case quotient_of x of (p, q) \<Rightarrow>
        let e = bitlen p - bitlen q in if pow2 e \<le> x then e else e - 1)"

text \<open>The binary64 number nearest to a rational: with \<open>2^e \<le> |x| < 2^(e + 1)\<close> the
  representable numbers around \<open>x\<close> are the multiples of \<open>2^(e - 52)\<close>; \<open>x\<close> is rounded to
  the nearest of them, a tie going to the even multiple. This is the value a decimal literal
  denotes and the result of every float operation.\<close>

definition double_of :: "rat \<Rightarrow> pyfloat" where
  "double_of x =
     (if x = 0 then 0
      else let ulp = pow2 (ilog2 \<bar>x\<bar> - 52) in of_int (round_half_even (x / ulp)) * ulp)"

text \<open>A list comprehension whose expression may raise: the first exception ends it.\<close>

fun mapE :: "('a \<Rightarrow> error + 'b) \<Rightarrow> 'a list \<Rightarrow> error + 'b list" where
  "mapE f [] = Inr []"
| "mapE f (x # xs) = bindE (f x) (\<lambda>y. bindE (mapE f xs) (\<lambda>ys. Inr (y # ys)))"

text \<open>\<^verbatim>\<open>min(xs)\<close> and \<^verbatim>\<open>max(xs)\<close>: the running value is replaced only by a strictly
  smaller (larger) item; the empty sequence raises.\<close>

fun py_min :: "'a::linorder list \<Rightarrow> error + 'a" where
  "py_min [] = Inl (ValueError ''min() arg is an empty sequence'')"
| "py_min (x # xs) = Inr (foldl (\<lambda>m y. if y < m then y else m) x xs)"

fun py_max :: "'a::linorder list \<Rightarrow> error + 'a" where
  "py_max [] = Inl (ValueError ''max() arg is an empty sequence'')"
| "py_max (x # xs) = Inr (foldl (\<lambda>m y. if y > m then y else m) x xs)"

text \<open>\<^verbatim>\<open>sum(xs)\<close> of floats: the items are added from the left, starting from 0, and every
  addition is rounded (the plain loop of CPython up to 3.11; later versions also carry a
  compensation term).\<close>

definition py_sum :: "pyfloat list \<Rightarrow> pyfloat" where
  "py_sum xs = foldl (\<lambda>a b. double_of (a + b)) 0 xs"

text \<open>\<^verbatim>\<open>a / n\<close> for a float \<open>a\<close> and an int \<open>n\<close>: the int is converted to the nearest
  float, the quotient is rounded; a zero divisor raises.\<close>

definition float_div :: "pyfloat \<Rightarrow> int \<Rightarrow> pyfloat" where
  "float_div a n = double_of (a / double_of (of_int n))"

definition truediv :: "pyfloat \<Rightarrow> int \<Rightarrow> error + pyfloat" where
  "truediv a n = (if n = 0 then Inl ZeroDivisionError else Inr (float_div a n))"

text \<open>\<^verbatim>\<open>xs[0]\<close>.\<close>

fun index0 :: "'a list \<Rightarrow> error + 'a" where
  "index0 [] = Inl IndexError"
| "index0 (x # xs) = Inr x"

text \<open>\<^verbatim>\<open>round(x, 2)\<close>: to the nearest multiple of 1/100, a tie going to the even one. The
  result is taken as that decimal number itself.\<close>

definition py_round2 :: "pyfloat \<Rightarrow> pyfloat" where
  "py_round2 x = of_int (round_half_even (x * 100)) / 100"

text \<open>\<^verbatim>\<open>min(xs, key=f)\<close>: the first item whose key is smallest; the key may raise.\<close>

fun min_loop :: "('a \<Rightarrow> error + 'k::linorder) \<Rightarrow> 'a \<Rightarrow> 'k \<Rightarrow> 'a list \<Rightarrow> error + 'a" where
  "min_loop f best bk [] = Inr best"
| "min_loop f best bk (y # ys) =
     bindE (f y) (\<lambda>k. if k < bk then min_loop f y k ys else min_loop f best bk ys)"

fun py_min_key :: "('a \<Rightarrow> error + 'k::linorder) \<Rightarrow> 'a list \<Rightarrow> error + 'a" where
  "py_min_key f [] = Inl (ValueError ''min() arg is an empty sequence'')"
| "py_min_key f (x # xs) = bindE (f x) (\<lambda>k. min_loop f x k xs)"

text \<open>The second component of the sort key: a mileage, or \<^verbatim>\<open>float('inf')\<close>, which is
  above every integer.\<close>

datatype mileage_key = Miles int | Infinity

instantiation mileage_key :: linorder
begin

fun less_eq_mileage_key :: "mileage_key \<Rightarrow> mileage_key \<Rightarrow> bool" where
  "less_eq_mileage_key (Miles a) (Miles b) = (a \<le> b)"
| "less_eq_mileage_key (Miles a) Infinity = True"
| "less_eq_mileage_key Infinity (Miles b) = False"
| "less_eq_mileage_key Infinity Infinity = True"

definition less_mileage_key :: "mileage_key \<Rightarrow> mileage_key \<Rightarrow> bool" where
  "less_mileage_key x y = (x \<le> y \<and> \<not> y \<le> x)"

instance
proof
  fix x y z :: mileage_key
  show "(x < y) = (x \<le> y \<and> \<not> y \<le> x)"
    by (simp add: less_mileage_key_def)
  show "x \<le> x"
    by (cases x) simp_all
  show "x \<le> y \<Longrightarrow> y \<le> z \<Longrightarrow> x \<le> z"
    by (cases x; cases y; cases z) simp_all
  show "x \<le> y \<Longrightarrow> y \<le> x \<Longrightarrow> x = y"
    by (cases x; cases y) simp_all
  show "x \<le> y \<or> y \<le> x"
    by (cases x; cases y) auto
qed

end

section \<open>The statistics of the route handler\<close>

text \<open>\<^verbatim>\<open>listing.mileage is not None and listing.mileage > 0\<close>.\<close>

definition has_mileage :: "listing \<Rightarrow> bool" where
  "has_mileage l = (case mileage l of None \<Rightarrow> False | Some m \<Rightarrow> m > 0)"

text \<open>\<^verbatim>\<open>float(listing.price) / listing.mileage\<close>. The column \<^verbatim>\<open>price\<close> is a
  \<^verbatim>\<open>Float\<close>: the attribute is a float already and \<^verbatim>\<open>float\<close> returns it as it is.\<close>

definition price_per_mile :: "listing \<Rightarrow> error + pyfloat" where
  "price_per_mile l =
     (case mileage l of None \<Rightarrow> Inl TypeError | Some m \<Rightarrow> truediv (price l) m)"

text \<open>The key of the best-deal sort:
  \<^verbatim>\<open>(float(listing.price), listing.mileage if listing.mileage is not None else float('inf'))\<close>.\<close>

definition deal_key :: "listing \<Rightarrow> pyfloat \<times> mileage_key" where
  "deal_key l = (price l, case mileage l of None \<Rightarrow> Infinity | Some m \<Rightarrow> Miles m)"

text \<open>\<^verbatim>\<open>round(avg_price_per_mile, 2) if avg_price_per_mile else None\<close>: \<^verbatim>\<open>None\<close> and
  \<^verbatim>\<open>0.0\<close> are both falsy.\<close>

definition round_if_truthy :: "pyfloat option \<Rightarrow> pyfloat option" where
  "round_if_truthy a =
     (case a of None \<Rightarrow> None | Some v \<Rightarrow> if v \<noteq> 0 then Some (py_round2 v) else None)"

text \<open>The mean of the per-listing ratios:
  \<^verbatim>\<open>sum(price_per_mile_values) / len(price_per_mile_values)\<close> over the comprehension.\<close>

definition mean_price_per_mile :: "listing list \<Rightarrow> error + pyfloat" where
  "mean_price_per_mile listings_with_mileage =
     bindE (mapE price_per_mile listings_with_mileage) (\<lambda>price_per_mile_values.
     truediv (py_sum price_per_mile_values) (int (length price_per_mile_values)))"

text \<open>The part of \<^verbatim>\<open>compare_car_listings\<close> after the listings are fetched
  (\<^verbatim>\<open># Compute statistics\<close> to the \<^verbatim>\<open>return\<close>).\<close>

definition compare_stats :: "listing list \<Rightarrow> error + CarCompareStats" where
  "compare_stats ls =
     (let n = length ls in
      if n = 0 then
        Inr \<lparr>count = 0, min_price = None, max_price = None, avg_price = None,
             avg_price_per_mile = None, best_deal_listing_id = None\<rparr>
      else
        let prices = map price ls in
        bindE (py_min prices) (\<lambda>lo.
        bindE (py_max prices) (\<lambda>hi.
        bindE (truediv (py_sum prices) (int n)) (\<lambda>avg.
        let listings_with_mileage = filter has_mileage ls in
        bindE (if listings_with_mileage \<noteq> [] then
                 bindE (mean_price_per_mile listings_with_mileage) (\<lambda>a. Inr (Some a))
               else Inr None) (\<lambda>ppm.
        bindE (index0 (sort_key deal_key ls)) (\<lambda>best_deal.
        Inr \<lparr>count = n, min_price = Some (py_round2 lo), max_price = Some (py_round2 hi),
             avg_price = Some (py_round2 avg), avg_price_per_mile = round_if_truthy ppm,
             best_deal_listing_id = Some (listing_id best_deal)\<rparr>))))))"

text \<open>The queries of the handler read the tables and leave them as they are.\<close>

definition query_first :: "('a \<Rightarrow> bool) \<Rightarrow> (db \<Rightarrow> 'a list) \<Rightarrow> db \<Rightarrow> 'a option \<times> db" where
  "query_first p table s = (case filter p (table s) of [] \<Rightarrow> None | x # _ \<Rightarrow> Some x, s)"

definition query_all :: "('a \<Rightarrow> bool) \<Rightarrow> (db \<Rightarrow> 'a list) \<Rightarrow> db \<Rightarrow> 'a list \<times> db" where
  "query_all p table s = (filter p (table s), s)"

text \<open>The route handler \<^verbatim>\<open>GET /cars/{car_id}/compare\<close>. \<open>UUID\<close> is the parser of the
  standard library (\<open>None\<close> where it raises \<^verbatim>\<open>ValueError\<close>); \<open>current_user\<close> is the id of the
  authenticated user.\<close>

definition compare_car_listings ::
  "(string \<Rightarrow> uuid option) \<Rightarrow> string \<Rightarrow> uuid \<Rightarrow> db \<Rightarrow> (error + CarCompareStats) \<times> db" where
  "compare_car_listings UUID car_id_str current_user s =
     (case UUID car_id_str of
        None \<Rightarrow> (Inl (HTTPException 400 ''Invalid car id format.''), s)
      | Some car_uuid \<Rightarrow>
          (case query_first (\<lambda>c. car_ident c = car_uuid \<and> user_id c = current_user) cars s of
             (None, s1) \<Rightarrow> (Inl (HTTPException 404 ''Car not found.''), s1)
           | (Some c, s1) \<Rightarrow>
               (case query_all (\<lambda>l. car_id l = car_uuid) listings s1 of
                  (ls, s2) \<Rightarrow> (compare_stats ls, s2))))"

section \<open>The statistics of the test helper\<close>

text \<open>\<^verbatim>\<open>l.mileage and l.mileage > 0\<close>: \<^verbatim>\<open>None\<close> and \<^verbatim>\<open>0\<close> are falsy.\<close>

definition helper_has_mileage :: "listing \<Rightarrow> bool" where
  "helper_has_mileage l = (case mileage l of None \<Rightarrow> False | Some m \<Rightarrow> m \<noteq> 0 \<and> m > 0)"

text \<open>\<^verbatim>\<open>compute_comparison_stats\<close>. The helper returns \<^verbatim>\<open>str(best_deal_listing.id)\<close>;
  \<^verbatim>\<open>str\<close> is one-to-one on UUIDs and is left out.\<close>

definition compute_comparison_stats :: "listing list \<Rightarrow> error + CarCompareStats" where
  "compute_comparison_stats ls =
     (if ls = [] then
        Inr \<lparr>count = 0, min_price = None, max_price = None, avg_price = None,
             avg_price_per_mile = None, best_deal_listing_id = None\<rparr>
      else
        let n = length ls; prices = map price ls in
        bindE (py_min prices) (\<lambda>lo.
        bindE (py_max prices) (\<lambda>hi.
        bindE (truediv (py_sum prices) (int n)) (\<lambda>avg.
        let listings_with_mileage = filter helper_has_mileage ls in
        bindE (if listings_with_mileage \<noteq> [] then
                 bindE (mean_price_per_mile listings_with_mileage) (\<lambda>a.
                 bindE (py_min_key price_per_mile listings_with_mileage) (\<lambda>best_deal_listing.
                 Inr (Some a, Some (listing_id best_deal_listing))))
               else Inr (None, None)) (\<lambda>(ppm, best).
        Inr \<lparr>count = n, min_price = Some (py_round2 lo), max_price = Some (py_round2 hi),
             avg_price = Some (py_round2 avg), avg_price_per_mile = round_if_truthy ppm,
             best_deal_listing_id = best\<rparr>)))))"

section \<open>The validators of the listing schemas\<close>

text \<open>\<^verbatim>\<open>ListingBase.validate_price\<close>, which \<^verbatim>\<open>ListingCreate\<close> inherits.\<close>

definition ListingBase_validate_price :: "pyfloat \<Rightarrow> error + pyfloat" where
  "ListingBase_validate_price v =
     (if v \<le> 0 then Inl (ValueError ''Price must be greater than 0'')
      else if v > 10000000 then Inl (ValueError ''Price cannot exceed $10,000,000'')
      else Inr (py_round2 v))"

text \<open>\<^verbatim>\<open>ListingBase.validate_mileage\<close>.\<close>

definition ListingBase_validate_mileage :: "int option \<Rightarrow> error + int option" where
  "ListingBase_validate_mileage v =
     (case v of
        None \<Rightarrow> Inr None
      | Some m \<Rightarrow>
          if m < 0 then Inl (ValueError ''Mileage cannot be negative'')
          else if m > 1000000 then Inl (ValueError ''Mileage cannot exceed 1,000,000 miles'')
          else Inr (Some m))"

text \<open>\<^verbatim>\<open>ListingUpdate.validate_price\<close> and \<^verbatim>\<open>ListingUpdate.validate_mileage\<close>: the
  fields of a partial update are optional.\<close>

definition ListingUpdate_validate_price :: "pyfloat option \<Rightarrow> error + pyfloat option" where
  "ListingUpdate_validate_price v =
     (case v of
        None \<Rightarrow> Inr None
      | Some p \<Rightarrow>
          if p \<le> 0 then Inl (ValueError ''Price must be greater than 0'')
          else if p > 10000000 then Inl (ValueError ''Price cannot exceed $10,000,000'')
          else Inr (Some (py_round2 p)))"

definition ListingUpdate_validate_mileage :: "int option \<Rightarrow> error + int option" where
  "ListingUpdate_validate_mileage v =
     (case v of
        None \<Rightarrow> Inr None
      | Some m \<Rightarrow>
          if m < 0 then Inl (ValueError ''Mileage cannot be negative'')
          else if m > 1000000 then Inl (ValueError ''Mileage cannot exceed 1,000,000 miles'')
          else Inr (Some m))"

section \<open>Notions the properties are stated with\<close>


text \<open>The same ratio as the code computes it: the price divided by the mileage in binary64
  arithmetic.\<close>

definition quotient :: "listing \<Rightarrow> pyfloat" where
  "quotient l = (case mileage l of None \<Rightarrow> 0 | Some m \<Rightarrow> float_div (price l) m)"

text \<open>The mean of a list of floats as the code computes it.\<close>

definition float_mean :: "pyfloat list \<Rightarrow> pyfloat" where
  "float_mean xs = float_div (py_sum xs) (int (length xs))"

text \<open>A number with at most two decimal places.\<close>

definition two_decimals :: "rat \<Rightarrow> bool" where
  "two_decimals v = (of_int \<lfloor>v * 100\<rfloor> = v * 100)"

text \<open>The unit roundoff of binary64, and the relative error that \<open>n\<close> rounded additions
  followed by a rounded division can accumulate.\<close>

definition unit_roundoff :: rat where
  "unit_roundoff = 1 / 2 ^ 53"

definition rounding_slack :: "nat \<Rightarrow> rat" where
  "rounding_slack n = (1 + unit_roundoff) ^ (n + 1) / (1 - unit_roundoff) - 1"


text \<open>Position \<open>i\<close> holds the first item of \<open>xs\<close> whose key is the smallest: no key is
  below it, and every key before it is strictly above.\<close>

definition first_min_at :: "('a \<Rightarrow> 'k::linorder) \<Rightarrow> 'a list \<Rightarrow> nat \<Rightarrow> bool" where
  "first_min_at key xs i =
     (i < length xs \<and> (\<forall>j<length xs. key (xs ! i) \<le> key (xs ! j))
      \<and> (\<forall>j<i. key (xs ! i) < key (xs ! j)))"

text \<open>The same listing with a mileage of 0 replaced by no mileage.\<close>

definition zero_as_null :: "listing \<Rightarrow> listing" where
  "zero_as_null l = (if mileage l = Some 0 then l\<lparr>mileage := None\<rparr> else l)"

text \<open>A listing of car 7, for the concrete inputs below.\<close>

definition mk_listing :: "uuid \<Rightarrow> pyfloat \<Rightarrow> int option \<Rightarrow> listing" where
  "mk_listing i p m = \<lparr>listing_id = i, car_id = 7, price = p, mileage = m\<rparr>"

section \<open>Facts about binary64 rounding\<close>

lemma pow2_pos [simp]: "0 < pow2 e"
  by (simp add: pow2_def)

lemma pow2_add: "pow2 (a + b) = pow2 a * pow2 b"
proof -
  have "pow2 e = 2 powi e" for e
    by (simp add: pow2_def power_int_def field_simps)
  then show ?thesis by (simp add: power_int_add)
qed

lemma pow2_Suc: "pow2 (e + 1) = 2 * pow2 e"
  by (simp add: pow2_add) (simp add: pow2_def)

lemma ilog2_bounds:
  assumes "0 < x"
  shows "pow2 (ilog2 x) \<le> x \<and> x < pow2 (ilog2 x + 1)"
proof -
  obtain p q where pq: "quotient_of x = (p, q)" by (cases "quotient_of x")
  have q: "0 < q" using pq by (rule quotient_of_denom_pos)
  have x: "x = of_int p / of_int q" using pq by (rule quotient_of_div)
  have p: "0 < p" using assms q x by (simp add: zero_less_divide_iff)
  define bp bq where "bp = bitlen p" and "bq = bitlen q"
  have bp1: "1 \<le> bp" and bq1: "1 \<le> bq"
    using p q bitlen_eq_zero_iff[of p] bitlen_eq_zero_iff[of q] bitlen_nonneg[of p] bitlen_nonneg[of q]
    unfolding bp_def bq_def by linarith+
  from bitlen_bounds[OF p] have pb: "2 ^ nat (bp - 1) \<le> p" "p < 2 ^ nat bp"
    by (simp_all add: bp_def)
  from bitlen_bounds[OF q] have qb: "2 ^ nat (bq - 1) \<le> q" "q < 2 ^ nat bq"
    by (simp_all add: bq_def)
  have P1: "pow2 (bp - 1) \<le> of_int p"
  proof -
    have "(of_int (2 ^ nat (bp - 1)) :: rat) \<le> of_int p" using pb(1) by (simp only: of_int_le_iff)
    then show ?thesis using bp1 by (simp add: pow2_def)
  qed
  have P2: "of_int p < pow2 bp"
  proof -
    have "(of_int p :: rat) < of_int (2 ^ nat bp)" using pb(2) by (simp only: of_int_less_iff)
    then show ?thesis using bp1 by (simp add: pow2_def)
  qed
  have Q1: "pow2 (bq - 1) \<le> of_int q"
  proof -
    have "(of_int (2 ^ nat (bq - 1)) :: rat) \<le> of_int q" using qb(1) by (simp only: of_int_le_iff)
    then show ?thesis using bq1 by (simp add: pow2_def)
  qed
  have Q2: "of_int q < pow2 bq"
  proof -
    have "(of_int q :: rat) < of_int (2 ^ nat bq)" using qb(2) by (simp only: of_int_less_iff)
    then show ?thesis using bq1 by (simp add: pow2_def)
  qed
  have qpos: "(0::rat) < of_int q" using q by simp
  have lower: "pow2 (bp - bq - 1) < x"
  proof -
    have "pow2 (bp - bq - 1) * of_int q < pow2 (bp - bq - 1) * pow2 bq"
      using Q2 by (simp add: mult_strict_left_mono)
    also have "\<dots> = pow2 (bp - 1)" by (simp add: pow2_add[symmetric])
    also have "\<dots> \<le> of_int p" by (rule P1)
    finally show ?thesis using qpos by (simp add: x pos_less_divide_eq)
  qed
  have upper: "x < pow2 (bp - bq + 1)"
  proof -
    have "of_int p < pow2 bp" by (rule P2)
    also have "\<dots> = pow2 (bp - bq + 1) * pow2 (bq - 1)" by (simp add: pow2_add[symmetric])
    also have "\<dots> \<le> pow2 (bp - bq + 1) * of_int q"
      using Q1 by (simp add: mult_left_mono less_imp_le)
    finally show ?thesis using qpos by (simp add: x pos_divide_less_eq)
  qed
  have il: "ilog2 x = (if pow2 (bp - bq) \<le> x then bp - bq else bp - bq - 1)"
    by (simp add: ilog2_def pq Let_def bp_def bq_def)
  show ?thesis
  proof (cases "pow2 (bp - bq) \<le> x")
    case True
    with il upper show ?thesis by simp
  next
    case False
    with il lower show ?thesis by (simp add: less_imp_le)
  qed
qed

lemma round_half_even_near: "\<bar>of_int (round_half_even y) - y\<bar> \<le> 1 / 2"
proof -
  define d where "d = y - of_int \<lfloor>y\<rfloor>"
  have d: "0 \<le> d" "d < 1" unfolding d_def by linarith+
  have y: "y = of_int \<lfloor>y\<rfloor> + d" by (simp add: d_def)
  have "\<bar>of_int (if d < 1 / 2 then \<lfloor>y\<rfloor> else if d > 1 / 2 then \<lfloor>y\<rfloor> + 1
                     else if even \<lfloor>y\<rfloor> then \<lfloor>y\<rfloor> else \<lfloor>y\<rfloor> + 1) - (of_int \<lfloor>y\<rfloor> + d)\<bar> \<le> 1 / 2"
    using d by (auto simp: abs_if)
  then show ?thesis
    unfolding round_half_even_def Let_def d_def[symmetric] using y by simp
qed

lemma pow2_53: "pow2 (e - 53) = pow2 e * unit_roundoff"
proof -
  have "pow2 (e - 53) = pow2 (e + (- 53))" by simp
  also have "\<dots> = pow2 e * pow2 (- 53)" by (rule pow2_add)
  also have "pow2 (- 53) = unit_roundoff" by (simp add: pow2_def unit_roundoff_def)
  finally show ?thesis .
qed

lemma double_of_error: "\<bar>double_of x - x\<bar> \<le> unit_roundoff * \<bar>x\<bar>"
proof (cases "x = 0")
  case True
  then show ?thesis by (simp add: double_of_def)
next
  case False
  define e where "e = ilog2 \<bar>x\<bar>"
  define ulp where "ulp = pow2 (e - 52)"
  have ulp: "0 < ulp" by (simp add: ulp_def)
  have le: "pow2 e \<le> \<bar>x\<bar>" using ilog2_bounds[of "\<bar>x\<bar>"] False by (simp add: e_def)
  have d: "double_of x = of_int (round_half_even (x / ulp)) * ulp"
    using False by (simp add: double_of_def Let_def ulp_def e_def)
  have "\<bar>double_of x - x\<bar> = \<bar>of_int (round_half_even (x / ulp)) - x / ulp\<bar> * ulp"
  proof -
    have "double_of x - x = (of_int (round_half_even (x / ulp)) - x / ulp) * ulp"
      using ulp by (simp add: d field_simps)
    then show ?thesis using ulp by (simp add: abs_mult)
  qed
  also have "\<dots> \<le> (1 / 2) * ulp"
    using round_half_even_near[of "x / ulp"] ulp by (intro mult_right_mono) simp_all
  also have "(1 / 2) * ulp = pow2 (e - 53)"
  proof -
    have "pow2 (e - 52) = pow2 ((e - 53) + 1)" by simp
    also have "\<dots> = 2 * pow2 (e - 53)" by (rule pow2_Suc)
    finally show ?thesis by (simp add: ulp_def)
  qed
  also have "\<dots> = pow2 e * unit_roundoff" by (rule pow2_53)
  also have "\<dots> \<le> \<bar>x\<bar> * unit_roundoff"
    using le by (intro mult_right_mono) (simp_all add: unit_roundoff_def)
  finally show ?thesis by (simp add: mult.commute)
qed

lemma u_pos: "0 < unit_roundoff" and u_less_1: "unit_roundoff < 1"
  by (simp_all add: unit_roundoff_def)

lemma sum_list_abs_nonneg: "0 \<le> sum_list (map abs (xs::rat list))"
  by (rule sum_list_nonneg) auto

lemma py_sum_snoc: "py_sum (xs @ [x]) = double_of (py_sum xs + x)"
  by (simp add: py_sum_def)

lemma py_sum_error:
  "\<bar>py_sum xs - sum_list xs\<bar> \<le> ((1 + unit_roundoff) ^ length xs - 1) * sum_list (map abs xs)"
proof (induction xs rule: rev_induct)
  case Nil
  then show ?case by (simp add: py_sum_def)
next
  case (snoc x xs)
  define u where "u = unit_roundoff"
  define n where "n = length xs"
  define T where "T = sum_list (map abs xs)"
  define s where "s = sum_list xs"
  define c where "c = (1 + u) ^ n - 1"
  have u: "0 < u" by (simp add: u_def u_pos)
  have T: "0 \<le> T" by (simp add: T_def sum_list_abs_nonneg)
  have c: "0 \<le> c" using u by (simp add: c_def)
  have sT: "\<bar>s\<bar> \<le> T" unfolding s_def T_def by (rule sum_list_abs)
  have IH: "\<bar>py_sum xs - s\<bar> \<le> c * T"
    using snoc.IH by (simp add: c_def u_def n_def T_def s_def)
  have a: "\<bar>py_sum xs + x\<bar> \<le> c * T + (T + \<bar>x\<bar>)"
  proof -
    have "\<bar>py_sum xs + x\<bar> \<le> \<bar>py_sum xs - s\<bar> + \<bar>s\<bar> + \<bar>x\<bar>" by linarith
    with IH sT show ?thesis by linarith
  qed
  have "\<bar>py_sum (xs @ [x]) - (s + x)\<bar>
          \<le> \<bar>double_of (py_sum xs + x) - (py_sum xs + x)\<bar> + \<bar>py_sum xs - s\<bar>"
    by (simp add: py_sum_snoc)
  also have "\<dots> \<le> u * \<bar>py_sum xs + x\<bar> + c * T"
    using double_of_error[of "py_sum xs + x"] IH by (simp add: u_def)
  also have "\<dots> \<le> u * (c * T + (T + \<bar>x\<bar>)) + c * T"
    using a u by (simp add: mult_left_mono)
  also have "\<dots> \<le> ((1 + u) * (c + 1) - 1) * (T + \<bar>x\<bar>)"
  proof -
    have "((1 + u) * (c + 1) - 1) * (T + \<bar>x\<bar>) - (u * (c * T + (T + \<bar>x\<bar>)) + c * T)
            = (c + u * c) * \<bar>x\<bar>"
      by (simp add: algebra_simps)
    moreover have "0 \<le> (c + u * c) * \<bar>x\<bar>" using c u by simp
    ultimately show ?thesis by linarith
  qed
  also have "(1 + u) * (c + 1) - 1 = (1 + u) ^ length (xs @ [x]) - 1"
    by (simp add: c_def n_def)
  finally show ?case by (simp add: s_def T_def u_def)
qed

lemma py_sum_abs:
  "\<bar>py_sum xs\<bar> \<le> (1 + unit_roundoff) ^ length xs * sum_list (map abs xs)"
proof -
  have "\<bar>py_sum xs\<bar> \<le> \<bar>py_sum xs - sum_list xs\<bar> + \<bar>sum_list xs\<bar>" by linarith
  also have "\<dots> \<le> ((1 + unit_roundoff) ^ length xs - 1) * sum_list (map abs xs)
                   + sum_list (map abs xs)"
    using py_sum_error[of xs] sum_list_abs[of xs] by linarith
  finally show ?thesis by (simp add: algebra_simps)
qed

lemma float_div_error:
  assumes "0 < n"
  shows "\<bar>float_div a n - a / of_int n\<bar>
           \<le> (2 * unit_roundoff / (1 - unit_roundoff)) * (\<bar>a\<bar> / of_int n)"
proof -
  define u where "u = unit_roundoff"
  define N :: rat where "N = of_int n"
  define d where "d = double_of N"
  have u: "0 < u" "u < 1" by (simp_all add: u_def u_pos u_less_1)
  have N: "0 < N" using assms by (simp add: N_def)
  have dN: "\<bar>d - N\<bar> \<le> u * N"
    using double_of_error[of N] N by (simp add: d_def u_def)
  have dlow: "(1 - u) * N \<le> d"
  proof -
    have "N - u * N \<le> d" using dN by linarith
    then show ?thesis by (simp add: algebra_simps)
  qed
  have lowpos: "0 < (1 - u) * N" using u N by simp
  have d: "0 < d" using dlow lowpos by linarith
  have inv: "1 / d \<le> 1 / ((1 - u) * N)"
    using dlow lowpos by (simp add: frac_le)
  have y: "\<bar>a / d\<bar> \<le> \<bar>a\<bar> / ((1 - u) * N)"
  proof -
    have "\<bar>a / d\<bar> = \<bar>a\<bar> * (1 / d)" using d by simp
    also have "\<dots> \<le> \<bar>a\<bar> * (1 / ((1 - u) * N))"
      using inv by (intro mult_left_mono) simp_all
    finally show ?thesis by simp
  qed
  have e1: "\<bar>float_div a n - a / d\<bar> \<le> u * (\<bar>a\<bar> / ((1 - u) * N))"
  proof -
    have "\<bar>float_div a n - a / d\<bar> \<le> u * \<bar>a / d\<bar>"
      using double_of_error[of "a / d"] by (simp add: float_div_def d_def N_def u_def)
    also have "\<dots> \<le> u * (\<bar>a\<bar> / ((1 - u) * N))"
      using y u by (intro mult_left_mono) simp_all
    finally show ?thesis .
  qed
  have e2: "\<bar>a / d - a / N\<bar> \<le> u * (\<bar>a\<bar> / ((1 - u) * N))"
  proof -
    have "a / d - a / N = (a / d) * ((N - d) / N)"
      using d N by (simp add: field_simps)
    then have "\<bar>a / d - a / N\<bar> = \<bar>a / d\<bar> * (\<bar>N - d\<bar> / N)"
      using N by (simp add: abs_mult)
    also have "\<dots> \<le> (\<bar>a\<bar> / ((1 - u) * N)) * u"
    proof (intro mult_mono)
      show "\<bar>a / d\<bar> \<le> \<bar>a\<bar> / ((1 - u) * N)" by (rule y)
      have "\<bar>N - d\<bar> \<le> u * N" using dN by (simp add: abs_minus_commute)
      then show "\<bar>N - d\<bar> / N \<le> u" using N by (simp add: pos_divide_le_eq)
      show "0 \<le> \<bar>a\<bar> / ((1 - u) * N)" using lowpos by simp
      show "0 \<le> \<bar>N - d\<bar> / N" using N by simp
    qed
    finally show ?thesis by (simp add: mult.commute)
  qed
  have "\<bar>float_div a n - a / N\<bar> \<le> \<bar>float_div a n - a / d\<bar> + \<bar>a / d - a / N\<bar>" by linarith
  also have "\<dots> \<le> 2 * (u * (\<bar>a\<bar> / ((1 - u) * N)))" using e1 e2 by linarith
  also have "\<dots> = (2 * u / (1 - u)) * (\<bar>a\<bar> / N)" using u N by (simp add: field_simps)
  finally show ?thesis by (simp add: u_def N_def)
qed

lemma float_mean_error:
  assumes "xs \<noteq> []"
  shows "\<bar>float_div (py_sum xs) (int (length xs)) - sum_list xs / of_nat (length xs)\<bar>
           \<le> rounding_slack (length xs) * (sum_list (map abs xs) / of_nat (length xs))"
proof -
  define u where "u = unit_roundoff"
  define n where "n = length xs"
  define N :: rat where "N = of_nat n"
  define T where "T = sum_list (map abs xs)"
  define s where "s = sum_list xs"
  define sh where "sh = py_sum xs"
  have u: "0 < u" "u < 1" by (simp_all add: u_def u_pos u_less_1)
  have n: "0 < n" using assms by (simp add: n_def)
  have N: "0 < N" using n by (simp add: N_def)
  have T: "0 \<le> T" by (simp add: T_def sum_list_abs_nonneg)
  have k: "0 \<le> 2 * u / (1 - u)" using u by simp
  have A: "\<bar>sh - s\<bar> \<le> ((1 + u) ^ n - 1) * T"
    using py_sum_error[of xs] by (simp add: sh_def s_def u_def n_def T_def)
  have B: "\<bar>sh\<bar> \<le> (1 + u) ^ n * T"
    using py_sum_abs[of xs] by (simp add: sh_def u_def n_def T_def)
  have C: "\<bar>float_div sh (int n) - sh / N\<bar> \<le> (2 * u / (1 - u)) * (\<bar>sh\<bar> / N)"
    using float_div_error[of "int n" sh] n by (simp add: u_def N_def)
  have C': "(2 * u / (1 - u)) * (\<bar>sh\<bar> / N) \<le> (2 * u / (1 - u)) * ((1 + u) ^ n * T / N)"
    using B N k by (intro mult_left_mono divide_right_mono) simp_all
  have D: "\<bar>sh / N - s / N\<bar> \<le> ((1 + u) ^ n - 1) * T / N"
  proof -
    have "\<bar>sh / N - s / N\<bar> = \<bar>sh - s\<bar> / N" using N by (simp add: diff_divide_distrib[symmetric])
    also have "\<dots> \<le> ((1 + u) ^ n - 1) * T / N" using A N by (intro divide_right_mono) simp_all
    finally show ?thesis .
  qed
  have "\<bar>float_div sh (int n) - s / N\<bar>
          \<le> \<bar>float_div sh (int n) - sh / N\<bar> + \<bar>sh / N - s / N\<bar>" by linarith
  also have "\<dots> \<le> (2 * u / (1 - u)) * ((1 + u) ^ n * T / N) + ((1 + u) ^ n - 1) * T / N"
    using C C' D by linarith
  also have "\<dots> = ((1 + u) ^ (n + 1) / (1 - u) - 1) * (T / N)"
    using u N by (simp add: field_simps)
  finally show ?thesis
    by (simp add: rounding_slack_def u_def n_def N_def T_def s_def sh_def)
qed

section \<open>Facts about the primitives\<close>

lemma bindE_Inr [simp]: "bindE (Inr v) f = f v"
  by (simp add: bindE_def)

lemma bindE_Inl [simp]: "bindE (Inl e) f = Inl e"
  by (simp add: bindE_def)

lemma foldl_min_Min: "foldl (\<lambda>m y. if y < m then y else m) x xs = Min (insert (x::'a::linorder) (set xs))"
proof (induction xs arbitrary: x)
  case Nil
  then show ?case by simp
next
  case (Cons a xs)
  have "(if a < x then a else x) = min x a" by (auto simp: min_def)
  then have "Min (insert (if a < x then a else x) (set xs)) = Min (insert x (insert a (set xs)))"
    by (cases "set xs = {}") (simp_all add: Min_insert2 min.assoc)
  with Cons show ?case by simp
qed

lemma foldl_max_Max: "foldl (\<lambda>m y. if y > m then y else m) x xs = Max (insert (x::'a::linorder) (set xs))"
proof (induction xs arbitrary: x)
  case Nil
  then show ?case by simp
next
  case (Cons a xs)
  have "(if a > x then a else x) = max x a" by (auto simp: max_def)
  then have "Max (insert (if a > x then a else x) (set xs)) = Max (insert x (insert a (set xs)))"
    by (cases "set xs = {}") (simp_all add: max.assoc)
  with Cons show ?case by simp
qed

lemma py_min_Min: "xs \<noteq> [] \<Longrightarrow> py_min xs = Inr (Min (set xs))"
  by (cases xs) (simp_all add: foldl_min_Min)

lemma py_max_Max: "xs \<noteq> [] \<Longrightarrow> py_max xs = Inr (Max (set xs))"
  by (cases xs) (simp_all add: foldl_max_Max)

lemma price_per_mile_quotient: "has_mileage l \<Longrightarrow> price_per_mile l = Inr (quotient l)"
  by (auto simp: has_mileage_def price_per_mile_def quotient_def truediv_def split: option.splits)

lemma mapE_total: "\<forall>x\<in>set xs. f x = Inr (g x) \<Longrightarrow> mapE f xs = Inr (map g xs)"
  by (induction xs) simp_all

lemma mean_price_per_mile_eq:
  assumes "\<forall>l\<in>set xs. has_mileage l" and "xs \<noteq> []"
  shows "mean_price_per_mile xs = Inr (float_mean (map quotient xs))"
proof -
  have "mapE price_per_mile xs = Inr (map quotient xs)"
    using assms(1) by (intro mapE_total) (simp add: price_per_mile_quotient)
  then show ?thesis
    using assms(2) by (simp add: mean_price_per_mile_def truediv_def float_mean_def)
qed

lemma hd_insort_key: "hd (insort_key f x ys) = (if ys = [] \<or> f x \<le> f (hd ys) then x else hd ys)"
  by (cases ys) simp_all

lemma sort_key_Cons: "sort_key f (x # xs) = insort_key f x (sort_key f xs)"
  by (simp add: sort_key_def)

lemma sort_key_Nil_iff: "sort_key f xs = [] \<longleftrightarrow> xs = []"
  by (metis length_sort list.size(3) length_0_conv)

lemma first_min_at_Cons_0:
  assumes "first_min_at f xs i" and "f x \<le> f (xs ! i)"
  shows "first_min_at f (x # xs) 0"
  unfolding first_min_at_def
proof (intro conjI allI impI)
  fix j assume "j < length (x # xs)"
  show "f ((x # xs) ! 0) \<le> f ((x # xs) ! j)"
  proof (cases j)
    case 0 then show ?thesis by simp
  next
    case (Suc k)
    with \<open>j < length (x # xs)\<close> have "k < length xs" by simp
    with assms have "f x \<le> f (xs ! k)" unfolding first_min_at_def by (meson order_trans)
    with Suc show ?thesis by simp
  qed
qed simp_all

lemma first_min_at_Cons_Suc:
  assumes "first_min_at f xs i" and "\<not> f x \<le> f (xs ! i)"
  shows "first_min_at f (x # xs) (Suc i)"
  unfolding first_min_at_def
proof (intro conjI allI impI)
  show "Suc i < length (x # xs)" using assms(1) by (simp add: first_min_at_def)
next
  fix j assume "j < length (x # xs)"
  then show "f ((x # xs) ! Suc i) \<le> f ((x # xs) ! j)"
    using assms by (cases j) (auto simp: first_min_at_def)
next
  fix j assume "j < Suc i"
  then show "f ((x # xs) ! Suc i) < f ((x # xs) ! j)"
    using assms by (cases j) (auto simp: first_min_at_def)
qed

lemma hd_sort_key_first_min:
  "xs \<noteq> [] \<Longrightarrow> \<exists>i. first_min_at f xs i \<and> hd (sort_key f xs) = xs ! i"
proof (induction xs)
  case Nil
  then show ?case by simp
next
  case (Cons x xs)
  show ?case
  proof (cases "xs = []")
    case True
    then show ?thesis by (auto simp: first_min_at_def sort_key_def)
  next
    case False
    with Cons.IH obtain i where i: "first_min_at f xs i" "hd (sort_key f xs) = xs ! i" by blast
    from False have ne: "sort_key f xs \<noteq> []" by (simp add: sort_key_Nil_iff)
    show ?thesis
    proof (cases "f x \<le> f (xs ! i)")
      case True
      then have "hd (sort_key f (x # xs)) = (x # xs) ! 0"
        using i ne by (simp add: sort_key_Cons hd_insort_key)
      with first_min_at_Cons_0[OF i(1) True] show ?thesis by blast
    next
      case False
      then have "hd (sort_key f (x # xs)) = (x # xs) ! Suc i"
        using i ne by (simp add: sort_key_Cons hd_insort_key)
      with first_min_at_Cons_Suc[OF i(1) False] show ?thesis by blast
    qed
  qed
qed

lemma index0_hd: "xs \<noteq> [] \<Longrightarrow> index0 xs = Inr (hd xs)"
  by (cases xs) simp_all

lemma first_min_at_snoc_new:
  assumes "first_min_at g pre i" and "g y < g (pre ! i)"
  shows "first_min_at g (pre @ [y]) (length pre)"
  using assms unfolding first_min_at_def
  by (auto simp: nth_append less_Suc_eq intro: less_le_trans)

lemma first_min_at_snoc_keep:
  assumes "first_min_at g pre i" and "\<not> g y < g (pre ! i)"
  shows "first_min_at g (pre @ [y]) i"
  using assms unfolding first_min_at_def
  by (auto simp: nth_append less_Suc_eq)

lemma min_loop_first_min:
  assumes "\<forall>y\<in>set ys. f y = Inr (g y)" and "first_min_at g pre i"
  shows "\<exists>k. min_loop f (pre ! i) (g (pre ! i)) ys = Inr ((pre @ ys) ! k) \<and> first_min_at g (pre @ ys) k"
  using assms
proof (induction ys arbitrary: pre i)
  case Nil
  then show ?case by auto
next
  case (Cons y ys)
  have fy: "f y = Inr (g y)" and rest: "\<forall>z\<in>set ys. f z = Inr (g z)"
    using Cons.prems(1) by simp_all
  have ilt: "i < length pre" using Cons.prems(2) by (simp add: first_min_at_def)
  show ?case
  proof (cases "g y < g (pre ! i)")
    case True
    have fm: "first_min_at g (pre @ [y]) (length pre)"
      by (rule first_min_at_snoc_new[OF Cons.prems(2) True])
    from Cons.IH[OF rest fm] True fy show ?thesis by simp
  next
    case False
    have fm: "first_min_at g (pre @ [y]) i"
      by (rule first_min_at_snoc_keep[OF Cons.prems(2) False])
    from Cons.IH[OF rest fm] False fy ilt show ?thesis by (simp add: nth_append)
  qed
qed

lemma py_min_key_first_min:
  assumes "\<forall>y\<in>set xs. f y = Inr (g y)" and "xs \<noteq> []"
  shows "\<exists>k. py_min_key f xs = Inr (xs ! k) \<and> first_min_at g xs k"
proof (cases xs)
  case Nil
  with assms show ?thesis by simp
next
  case (Cons x xs')
  have "first_min_at g [x] 0" by (simp add: first_min_at_def)
  moreover have "\<forall>y\<in>set xs'. f y = Inr (g y)" "f x = Inr (g x)" using assms Cons by simp_all
  ultimately show ?thesis
    using min_loop_first_min[of xs' f g "[x]" 0] Cons by simp
qed

lemma helper_has_mileage_eq: "helper_has_mileage = has_mileage"
  by (auto simp: helper_has_mileage_def has_mileage_def fun_eq_iff split: option.splits)

lemma mean_price_per_mile_filter:
  "filter has_mileage ls \<noteq> [] \<Longrightarrow>
   mean_price_per_mile (filter has_mileage ls)
     = Inr (float_mean (map quotient (filter has_mileage ls)))"
  by (rule mean_price_per_mile_eq) simp_all

lemma compare_stats_nonempty:
  assumes "ls \<noteq> []"
  shows "compare_stats ls =
     Inr \<lparr>count = length ls,
          min_price = Some (py_round2 (Min (price ` set ls))),
          max_price = Some (py_round2 (Max (price ` set ls))),
          avg_price = Some (py_round2 (float_mean (map price ls))),
          avg_price_per_mile = round_if_truthy
            (if filter has_mileage ls = [] then None
             else Some (float_mean (map quotient (filter has_mileage ls)))),
          best_deal_listing_id = Some (listing_id (hd (sort_key deal_key ls)))\<rparr>"
proof -
  have s: "sort_key deal_key ls \<noteq> []" using assms by (simp add: sort_key_Nil_iff)
  show ?thesis
    using assms s
    by (simp add: compare_stats_def Let_def py_min_Min py_max_Max truediv_def float_mean_def
        mean_price_per_mile_filter index0_hd)
qed

lemma compute_comparison_stats_nonempty:
  assumes "ls \<noteq> []"
  shows "\<exists>best. compute_comparison_stats ls =
     Inr \<lparr>count = length ls,
          min_price = Some (py_round2 (Min (price ` set ls))),
          max_price = Some (py_round2 (Max (price ` set ls))),
          avg_price = Some (py_round2 (float_mean (map price ls))),
          avg_price_per_mile = round_if_truthy
            (if filter has_mileage ls = [] then None
             else Some (float_mean (map quotient (filter has_mileage ls)))),
          best_deal_listing_id = best\<rparr>
     \<and> (if filter has_mileage ls = [] then best = None
        else \<exists>k. first_min_at quotient (filter has_mileage ls) k
                 \<and> best = Some (listing_id (filter has_mileage ls ! k)))"
proof (cases "filter has_mileage ls = []")
  case True
  then show ?thesis
    using assms
    by (simp add: compute_comparison_stats_def Let_def py_min_Min py_max_Max truediv_def
        float_mean_def helper_has_mileage_eq)
next
  case False
  have "\<forall>y\<in>set (filter has_mileage ls). price_per_mile y = Inr (quotient y)"
    by (simp add: price_per_mile_quotient)
  from py_min_key_first_min[OF this False] obtain k where
    k: "py_min_key price_per_mile (filter has_mileage ls) = Inr (filter has_mileage ls ! k)"
       "first_min_at quotient (filter has_mileage ls) k" by blast
  show ?thesis
    using assms False k
    by (auto simp add: compute_comparison_stats_def Let_def py_min_Min py_max_Max truediv_def
        float_mean_def helper_has_mileage_eq mean_price_per_mile_filter)
qed

lemma py_round2_cents: "\<exists>k::int. py_round2 x = of_int k / 100"
  by (auto simp: py_round2_def)

lemma py_round2_near: "\<bar>py_round2 x - x\<bar> \<le> 1 / 200"
proof -
  have "\<bar>of_int (round_half_even (x * 100)) - x * 100\<bar> \<le> 1 / 2"
    by (rule round_half_even_near)
  then show ?thesis
    by (simp add: py_round2_def abs_if field_simps split: if_splits)
qed

section \<open>Facts about the two computations\<close>

lemma deal_key_le_price: "deal_key a \<le> deal_key b \<Longrightarrow> price a \<le> price b"
  by (auto simp: deal_key_def less_eq_prod_def)

lemma compare_stats_best_deal:
  assumes "ls \<noteq> []"
  shows "\<exists>r i. compare_stats ls = Inr r \<and> first_min_at deal_key ls i
           \<and> best_deal_listing_id r = Some (listing_id (ls ! i))"
proof -
  from hd_sort_key_first_min[OF assms, of deal_key] obtain i where
    "first_min_at deal_key ls i" "hd (sort_key deal_key ls) = ls ! i" by blast
  then show ?thesis
    by (auto simp add: compare_stats_nonempty[OF assms])
qed

lemma compare_stats_total: "\<exists>r. compare_stats ls = Inr r"
proof (cases "ls = []")
  case True
  then show ?thesis by (simp add: compare_stats_def)
next
  case False
  then show ?thesis by (simp add: compare_stats_nonempty)
qed

lemma compute_comparison_stats_total: "\<exists>r. compute_comparison_stats ls = Inr r"
  using compute_comparison_stats_nonempty[of ls]
  by (cases "ls = []") (auto simp: compute_comparison_stats_def)

lemma has_mileage_zero_as_null [simp]: "has_mileage (zero_as_null l) = has_mileage l"
  by (auto simp: has_mileage_def zero_as_null_def split: option.splits)

lemma price_zero_as_null [simp]: "price (zero_as_null l) = price l"
  by (simp add: zero_as_null_def)

lemma zero_as_null_has_mileage: "has_mileage l \<Longrightarrow> zero_as_null l = l"
  by (auto simp: has_mileage_def zero_as_null_def split: option.splits)

lemma filter_has_mileage_zero_as_null:
  "filter has_mileage (map zero_as_null ls) = filter has_mileage ls"
  by (induction ls) (simp_all add: zero_as_null_has_mileage)

lemma compute_comparison_stats_zero_as_null:
  "compute_comparison_stats (map zero_as_null ls) = compute_comparison_stats ls"
  by (simp add: compute_comparison_stats_def helper_has_mileage_eq filter_has_mileage_zero_as_null
      o_def)

lemma compare_car_listings_frame: "snd (compare_car_listings UUID cid u s) = s"
  by (simp add: compare_car_listings_def query_first_def query_all_def
      split: option.splits list.splits)

lemma double_of_pos: "0 < x \<Longrightarrow> 0 < double_of x"
proof -
  assume x: "0 < x"
  have "\<bar>double_of x - x\<bar> \<le> unit_roundoff * x"
    using double_of_error[of x] x by simp
  then have "(1 - unit_roundoff) * x \<le> double_of x"
    by (simp add: algebra_simps abs_le_iff)
  moreover have "0 < (1 - unit_roundoff) * x"
    using x u_less_1 by simp
  ultimately show ?thesis by linarith
qed

lemma py_sum_nonneg: "\<forall>x\<in>set xs. 0 < x \<Longrightarrow> 0 \<le> py_sum xs"
proof (induction xs rule: rev_induct)
  case Nil
  then show ?case by (simp add: py_sum_def)
next
  case (snoc x xs)
  then have "0 < py_sum xs + x" by (simp add: add_nonneg_pos)
  then show ?case by (simp add: py_sum_snoc double_of_pos less_imp_le)
qed

lemma py_sum_pos: "xs \<noteq> [] \<Longrightarrow> \<forall>x\<in>set xs. 0 < x \<Longrightarrow> 0 < py_sum xs"
proof (induction xs rule: rev_induct)
  case Nil
  then show ?case by simp
next
  case (snoc x xs)
  then have "0 \<le> py_sum xs" "0 < x" by (simp_all add: py_sum_nonneg)
  then have "0 < py_sum xs + x" by (simp add: add_nonneg_pos)
  then show ?case by (simp add: py_sum_snoc double_of_pos)
qed

lemma float_div_pos: "0 < a \<Longrightarrow> 0 < n \<Longrightarrow> 0 < float_div a n"
  by (simp add: float_div_def double_of_pos)

lemma float_mean_quotient_pos:
  assumes "\<forall>l\<in>set ls. 0 < price l" and "filter has_mileage ls \<noteq> []"
  shows "0 < float_mean (map quotient (filter has_mileage ls))"
proof -
  have "\<forall>x\<in>set (map quotient (filter has_mileage ls)). 0 < x"
    using assms(1)
    by (auto simp: quotient_def has_mileage_def float_div_pos split: option.splits)
  then have "0 < py_sum (map quotient (filter has_mileage ls))"
    using assms(2) by (intro py_sum_pos) simp_all
  then show ?thesis
    using assms(2) by (simp add: float_mean_def float_div_pos)
qed

text \<open>
  Where every price is positive, the average price per mile is \<^verbatim>\<open>None\<close> exactly when no
  listing has a mileage above 0, and otherwise the mean of the quotients of the listings that
  have one, computed in binary64 and rounded to two decimal places.
\<close>

lemma avg_price_per_mile_positive_prices:
  assumes "\<forall>l\<in>set ls. 0 < price l"
  shows "\<exists>r r'. compare_stats ls = Inr r \<and> compute_comparison_stats ls = Inr r'
     \<and> avg_price_per_mile r =
         (if filter has_mileage ls = [] then None
          else Some (py_round2 (float_mean (map quotient (filter has_mileage ls)))))
     \<and> avg_price_per_mile r' = avg_price_per_mile r"
proof (cases "ls = []")
  case True
  then show ?thesis by (simp add: compare_stats_def compute_comparison_stats_def)
next
  case False
  from compute_comparison_stats_nonempty[OF False] obtain r' where
    r': "compute_comparison_stats ls = Inr r'"
    "avg_price_per_mile r' = round_if_truthy
            (if filter has_mileage ls = [] then None
             else Some (float_mean (map quotient (filter has_mileage ls))))"
    by auto
  show ?thesis
  proof (cases "filter has_mileage ls = []")
    case True
    with r' show ?thesis
      by (simp add: compare_stats_nonempty[OF False] round_if_truthy_def)
  next
    case q: False
    from float_mean_quotient_pos[OF assms q]
    have "float_mean (map quotient (filter has_mileage ls)) \<noteq> 0" by simp
    with r' q show ?thesis
      by (simp add: compare_stats_nonempty[OF False] round_if_truthy_def)
  qed
qed



lemma two_decimals_py_round2: "two_decimals (py_round2 x)"
  by (simp add: two_decimals_def py_round2_def)

lemma float_mean_price_error:
  assumes "ls \<noteq> []"
  shows "\<bar>float_mean (map price ls) - sum_list (map price ls) / of_nat (length ls)\<bar>
           \<le> rounding_slack (length ls) * (sum_list (map (\<lambda>l. \<bar>price l\<bar>) ls) / of_nat (length ls))"
proof -
  have "map price ls \<noteq> []" using assms by simp
  from float_mean_error[OF this] show ?thesis
    by (simp add: float_mean_def o_def)
qed

lemma compare_car_listings_found:
  assumes "UUID cid = Some c"
    and "filter (\<lambda>x. car_ident x = c \<and> user_id x = u) (cars s) \<noteq> []"
  shows "fst (compare_car_listings UUID cid u s)
           = compare_stats (filter (\<lambda>l. car_id l = c) (listings s))"
  using assms
  by (simp add: compare_car_listings_def query_first_def query_all_def split: list.splits)

text \<open>The two computations on the inputs of the helper's own tests.\<close>

lemma compare_stats_all_null:
  "compare_stats [mk_listing 1 30000 None, mk_listing 2 32000 None] =
     Inr \<lparr>count = 2, min_price = Some 30000, max_price = Some 32000, avg_price = Some 31000,
          avg_price_per_mile = None, best_deal_listing_id = Some 1\<rparr>"
  by code_simp

lemma compare_stats_identical_prices:
  "compare_stats [mk_listing 1 24000 (Some 45000), mk_listing 2 24000 (Some 50000),
                  mk_listing 3 24000 (Some 55000)] =
     Inr \<lparr>count = 3, min_price = Some 24000, max_price = Some 24000, avg_price = Some 24000,
          avg_price_per_mile = Some (12 / 25), best_deal_listing_id = Some 1\<rparr>"
  by code_simp

lemma compute_comparison_stats_identical_prices:
  "compute_comparison_stats [mk_listing 1 24000 (Some 45000), mk_listing 2 24000 (Some 50000),
                  mk_listing 3 24000 (Some 55000)] =
     Inr \<lparr>count = 3, min_price = Some 24000, max_price = Some 24000, avg_price = Some 24000,
          avg_price_per_mile = Some (12 / 25), best_deal_listing_id = Some 3\<rparr>"
  by code_simp

section \<open>Empty input\<close>

text \<open>
  C5: on the empty list both the handler's computation and the helper return count 0 and
  \<^verbatim>\<open>None\<close> for the minimum, maximum and average price, the average price per mile and the
  best deal.
\<close>

theorem compare_empty:
  "compare_stats [] =
     Inr \<lparr>count = 0, min_price = None, max_price = None, avg_price = None,
          avg_price_per_mile = None, best_deal_listing_id = None\<rparr>
   \<and> compute_comparison_stats [] =
     Inr \<lparr>count = 0, min_price = None, max_price = None, avg_price = None,
          avg_price_per_mile = None, best_deal_listing_id = None\<rparr>"
  by (simp add: compare_stats_def compute_comparison_stats_def)

section \<open>The best deal\<close>




text \<open>
  C3: there is a list of listings on which the best deal of the route handler (lowest price,
  then lowest mileage, no mileage last) differs from the best deal of the helper (lowest
  ratio \<open>price / mileage\<close> among the listings with a mileage above 0).
\<close>

theorem best_deal_rules_disagree:
  "\<exists>ls r r'. compare_stats ls = Inr r \<and> compute_comparison_stats ls = Inr r'
      \<and> best_deal_listing_id r \<noteq> best_deal_listing_id r'"
proof -
  have "best_deal_listing_id
          \<lparr>count = 3, min_price = Some 24000, max_price = Some 24000, avg_price = Some 24000,
           avg_price_per_mile = Some (12 / 25), best_deal_listing_id = Some (1::nat)\<rparr>
        \<noteq> best_deal_listing_id
          \<lparr>count = 3, min_price = Some 24000, max_price = Some 24000, avg_price = Some 24000,
           avg_price_per_mile = Some (12 / 25), best_deal_listing_id = Some 3\<rparr>"
    by simp
  with compare_stats_identical_prices compute_comparison_stats_identical_prices
  show ?thesis by blast
qed

text \<open>
  C9: on every non-empty list the route handler returns the id of a listing; that listing has
  the lowest price; among the listings of that price it has the lowest mileage, a listing
  without mileage being selected only if none of them has one; and no earlier listing has the
  same price and mileage key.
\<close>

theorem endpoint_best_deal:
  assumes "ls \<noteq> []"
  shows "\<exists>r i. compare_stats ls = Inr r \<and> i < length ls
           \<and> best_deal_listing_id r = Some (listing_id (ls ! i))
           \<and> (\<forall>l\<in>set ls. price (ls ! i) \<le> price l)
           \<and> (\<forall>l\<in>set ls. price l = price (ls ! i) \<longrightarrow>
                 (case mileage (ls ! i) of
                    None \<Rightarrow> mileage l = None
                  | Some m \<Rightarrow> (case mileage l of None \<Rightarrow> True | Some m' \<Rightarrow> m \<le> m')))
           \<and> (\<forall>j<i. deal_key (ls ! j) \<noteq> deal_key (ls ! i))"
proof -
  from compare_stats_best_deal[OF assms] obtain r i where
    r: "compare_stats ls = Inr r" "best_deal_listing_id r = Some (listing_id (ls ! i))"
    and fm: "first_min_at deal_key ls i" by blast
  have le: "deal_key (ls ! i) \<le> deal_key l" if "l \<in> set ls" for l
    using that fm by (auto simp: first_min_at_def in_set_conv_nth)
  have "i < length ls" using fm by (simp add: first_min_at_def)
  moreover have "\<forall>l\<in>set ls. price (ls ! i) \<le> price l"
    using le by (auto intro: deal_key_le_price)
  moreover have "\<forall>l\<in>set ls. price l = price (ls ! i) \<longrightarrow>
                 (case mileage (ls ! i) of
                    None \<Rightarrow> mileage l = None
                  | Some m \<Rightarrow> (case mileage l of None \<Rightarrow> True | Some m' \<Rightarrow> m \<le> m'))"
  proof (intro ballI impI)
    fix l assume "l \<in> set ls" "price l = price (ls ! i)"
    with le[of l] show "case mileage (ls ! i) of
                    None \<Rightarrow> mileage l = None
                  | Some m \<Rightarrow> (case mileage l of None \<Rightarrow> True | Some m' \<Rightarrow> m \<le> m')"
      by (auto simp: deal_key_def less_eq_prod_def split: option.splits)
  qed
  moreover have "\<forall>j<i. deal_key (ls ! j) \<noteq> deal_key (ls ! i)"
    using fm by (auto simp: first_min_at_def)
  ultimately show ?thesis using r by blast
qed

text \<open>Of three listings of equal price, the first without mileage and the other two with the
  same mileage, the second is selected.\<close>

theorem endpoint_best_deal_witness:
  "\<exists>r. compare_stats [mk_listing 1 100 None, mk_listing 2 100 (Some 60), mk_listing 3 100 (Some 60)] = Inr r
        \<and> best_deal_listing_id r = Some 2"
proof -
  define ls where "ls = [mk_listing 1 100 None, mk_listing 2 100 (Some 60), mk_listing 3 100 (Some 60)]"
  have ne: "ls \<noteq> []" by (simp add: ls_def)
  from endpoint_best_deal[OF ne] obtain r i where
    r: "compare_stats ls = Inr r"
    and i: "i < length ls"
    and b: "best_deal_listing_id r = Some (listing_id (ls ! i))"
    and nul: "\<forall>l\<in>set ls. price l = price (ls ! i) \<longrightarrow>
                 (case mileage (ls ! i) of
                    None \<Rightarrow> mileage l = None
                  | Some m \<Rightarrow> (case mileage l of None \<Rightarrow> True | Some m' \<Rightarrow> m \<le> m'))"
    and first: "\<forall>j<i. deal_key (ls ! j) \<noteq> deal_key (ls ! i)"
    by blast
  from i have "i = 0 \<or> i = 1 \<or> i = 2" by (auto simp: ls_def)
  moreover have "i \<noteq> 0"
  proof
    assume "i = 0"
    with nul show False by (simp add: ls_def mk_listing_def)
  qed
  moreover have "i \<noteq> 2"
  proof
    assume "i = 2"
    with first have "deal_key (ls ! 1) \<noteq> deal_key (ls ! 2)" by simp
    then show False by (simp add: ls_def mk_listing_def deal_key_def)
  qed
  ultimately have "i = 1" by blast
  with r b show ?thesis by (simp add: ls_def mk_listing_def)
qed

section \<open>Price statistics\<close>

text \<open>
  C4, as stated, fails on the average: the prices are added and divided in binary64. For the
  prices 20000.0 and 20000.31 both computations return the average 20000.15, while the mean
  of the two prices rounded to two decimal places is 20000.16.
\<close>

theorem avg_price_rounding_counterexample:
  "compare_stats [mk_listing 1 20000 None, mk_listing 2 (double_of (2000031 / 100)) None] =
     Inr \<lparr>count = 2, min_price = Some 20000, max_price = Some (2000031 / 100),
          avg_price = Some (2000015 / 100), avg_price_per_mile = None,
          best_deal_listing_id = Some 1\<rparr>
   \<and> compute_comparison_stats [mk_listing 1 20000 None, mk_listing 2 (double_of (2000031 / 100)) None] =
     Inr \<lparr>count = 2, min_price = Some 20000, max_price = Some (2000031 / 100),
          avg_price = Some (2000015 / 100), avg_price_per_mile = None,
          best_deal_listing_id = None\<rparr>
   \<and> py_round2 ((20000 + double_of (2000031 / 100)) / 2) = 2000016 / 100"
  by code_simp

text \<open>
  C4, amended: in both computations the count is the number of listings; the minimum, maximum
  and average price are \<^verbatim>\<open>None\<close> on the empty list; otherwise each is a number with two
  decimal places, the minimum and the maximum are the least and the greatest price rounded to
  two decimal places, and the average is the binary64 mean of the prices (summed from the
  left, then divided by the count) rounded to two decimal places, which lies within half a
  cent plus the accumulated rounding error of the arithmetic mean.
\<close>

theorem price_statistics:
  "\<exists>r r'. compare_stats ls = Inr r \<and> compute_comparison_stats ls = Inr r'
     \<and> count r = length ls \<and> count r' = length ls
     \<and> min_price r' = min_price r \<and> max_price r' = max_price r \<and> avg_price r' = avg_price r
     \<and> (if ls = [] then min_price r = None \<and> max_price r = None \<and> avg_price r = None
        else \<exists>lo hi avg.
          min_price r = Some lo \<and> max_price r = Some hi \<and> avg_price r = Some avg
          \<and> lo = py_round2 (Min (price ` set ls)) \<and> two_decimals lo
          \<and> \<bar>lo - Min (price ` set ls)\<bar> \<le> 1 / 200
          \<and> hi = py_round2 (Max (price ` set ls)) \<and> two_decimals hi
          \<and> \<bar>hi - Max (price ` set ls)\<bar> \<le> 1 / 200
          \<and> avg = py_round2 (float_mean (map price ls)) \<and> two_decimals avg
          \<and> \<bar>avg - sum_list (map price ls) / of_nat (length ls)\<bar>
               \<le> 1 / 200 + rounding_slack (length ls)
                              * (sum_list (map (\<lambda>l. \<bar>price l\<bar>) ls) / of_nat (length ls)))"
proof (cases "ls = []")
  case True
  then show ?thesis
    by (simp add: compare_stats_def compute_comparison_stats_def)
next
  case False
  from compute_comparison_stats_nonempty[OF False] obtain r' where
    r': "compute_comparison_stats ls = Inr r'" "count r' = length ls"
    "min_price r' = Some (py_round2 (Min (price ` set ls)))"
    "max_price r' = Some (py_round2 (Max (price ` set ls)))"
    "avg_price r' = Some (py_round2 (float_mean (map price ls)))"
    by auto
  have avg: "\<bar>py_round2 (float_mean (map price ls)) - sum_list (map price ls) / of_nat (length ls)\<bar>
               \<le> 1 / 200 + rounding_slack (length ls)
                              * (sum_list (map (\<lambda>l. \<bar>price l\<bar>) ls) / of_nat (length ls))"
    using py_round2_near[of "float_mean (map price ls)"] float_mean_price_error[OF False]
    by linarith
  show ?thesis
    using r' False avg py_round2_near[of "Min (price ` set ls)"]
      py_round2_near[of "Max (price ` set ls)"]
    by (simp add: compare_stats_nonempty[OF False] two_decimals_py_round2)
qed

section \<open>Average price per mile\<close>

text \<open>
  C2, at a listing of price 0 and mileage 5: the listing has a mileage above 0, its ratio is 0,
  and both computations return \<^verbatim>\<open>None\<close> for the average price per mile, because the mean
  \<^verbatim>\<open>0.0\<close> is falsy. The validator accepts the price 0.004 and stores it as 0.
\<close>

theorem avg_price_per_mile_null_at_zero_price:
  "ListingBase_validate_price (1 / 250) = Inr 0
   \<and> filter has_mileage [mk_listing 1 0 (Some 5)] = [mk_listing 1 0 (Some 5)]
   \<and> compare_stats [mk_listing 1 0 (Some 5)] =
       Inr \<lparr>count = 1, min_price = Some 0, max_price = Some 0, avg_price = Some 0,
            avg_price_per_mile = None, best_deal_listing_id = Some 1\<rparr>
   \<and> compute_comparison_stats [mk_listing 1 0 (Some 5)] =
       Inr \<lparr>count = 1, min_price = Some 0, max_price = Some 0, avg_price = Some 0,
            avg_price_per_mile = None, best_deal_listing_id = Some 1\<rparr>"
  by code_simp

section \<open>Mileage zero\<close>

text \<open>
  C6, as stated, fails on the route handler: in its best-deal sort a mileage of 0 is the lowest
  key and no mileage the highest, so a listing with mileage 0 wins a tie on price that the
  same listing without mileage loses.
\<close>

theorem zero_mileage_best_deal_counterexample:
  "compare_stats [mk_listing 1 100 None, mk_listing 2 100 (Some 0)] =
     Inr \<lparr>count = 2, min_price = Some 100, max_price = Some 100, avg_price = Some 100,
          avg_price_per_mile = None, best_deal_listing_id = Some 2\<rparr>
   \<and> compare_stats [mk_listing 1 100 None, mk_listing 2 100 None] =
     Inr \<lparr>count = 2, min_price = Some 100, max_price = Some 100, avg_price = Some 100,
          avg_price_per_mile = None, best_deal_listing_id = Some 1\<rparr>"
  by code_simp

text \<open>
  C6, amended: on every list neither computation raises (no division by zero). Replacing each
  mileage of 0 by no mileage leaves the whole result of the helper unchanged, and leaves every
  field of the route handler's result unchanged except possibly the best deal.
\<close>

theorem zero_mileage_excluded:
  "(\<exists>r r0. compare_stats ls = Inr r \<and> compare_stats (map zero_as_null ls) = Inr r0
       \<and> r0 = r\<lparr>best_deal_listing_id := best_deal_listing_id r0\<rparr>)
   \<and> (\<exists>r'. compute_comparison_stats ls = Inr r'
       \<and> compute_comparison_stats (map zero_as_null ls) = Inr r')"
proof
  show "\<exists>r r0. compare_stats ls = Inr r \<and> compare_stats (map zero_as_null ls) = Inr r0
       \<and> r0 = r\<lparr>best_deal_listing_id := best_deal_listing_id r0\<rparr>"
  proof (cases "ls = []")
    case True
    then show ?thesis by (simp add: compare_stats_def)
  next
    case False
    then have "map zero_as_null ls \<noteq> []" by simp
    from compare_stats_nonempty[OF this] compare_stats_nonempty[OF False]
    show ?thesis
      by (simp add: filter_has_mileage_zero_as_null image_image o_def)
  qed
next
  show "\<exists>r'. compute_comparison_stats ls = Inr r'
       \<and> compute_comparison_stats (map zero_as_null ls) = Inr r'"
    using compute_comparison_stats_total[of ls]
    by (simp add: compute_comparison_stats_zero_as_null)
qed

section \<open>Determinism and frame\<close>

text \<open>
  C7: where the car is found and belongs to the user, the result of the route handler is the
  statistics of the car's listings and of nothing else: two databases that hold the same
  listings for the car give the same result, whatever else they hold, and so does a second
  call on the database as the first call left it.
\<close>

theorem compare_car_listings_deterministic:
  assumes "UUID cid = Some c"
    and "filter (\<lambda>x. car_ident x = c \<and> user_id x = u) (cars s) \<noteq> []"
    and "filter (\<lambda>x. car_ident x = c \<and> user_id x = u) (cars s') \<noteq> []"
    and "filter (\<lambda>l. car_id l = c) (listings s) = filter (\<lambda>l. car_id l = c) (listings s')"
  shows "fst (compare_car_listings UUID cid u s)
           = compare_stats (filter (\<lambda>l. car_id l = c) (listings s))
       \<and> fst (compare_car_listings UUID cid u s') = fst (compare_car_listings UUID cid u s)
       \<and> fst (compare_car_listings UUID cid u (snd (compare_car_listings UUID cid u s)))
           = fst (compare_car_listings UUID cid u s)"
  using assms
  by (simp add: compare_car_listings_found compare_car_listings_frame)

text \<open>Two databases that differ in their cars and in the listings of another car.\<close>

theorem compare_car_listings_deterministic_witness:
  "fst (compare_car_listings (\<lambda>x. if x = ''7'' then Some 7 else None) ''7'' 1
          \<lparr>cars = [\<lparr>car_ident = 7, user_id = 1\<rparr>, \<lparr>car_ident = 8, user_id = 1\<rparr>],
           listings = [mk_listing 1 30000 None, \<lparr>listing_id = 9, car_id = 8, price = 5, mileage = Some 3\<rparr>,
                       mk_listing 2 32000 None]\<rparr>)
   = fst (compare_car_listings (\<lambda>x. if x = ''7'' then Some 7 else None) ''7'' 1
          \<lparr>cars = [\<lparr>car_ident = 3, user_id = 2\<rparr>, \<lparr>car_ident = 7, user_id = 1\<rparr>],
           listings = [mk_listing 1 30000 None, mk_listing 2 32000 None]\<rparr>)
   \<and> fst (compare_car_listings (\<lambda>x. if x = ''7'' then Some 7 else None) ''7'' 1
          \<lparr>cars = [\<lparr>car_ident = 7, user_id = 1\<rparr>, \<lparr>car_ident = 8, user_id = 1\<rparr>],
           listings = [mk_listing 1 30000 None, \<lparr>listing_id = 9, car_id = 8, price = 5, mileage = Some 3\<rparr>,
                       mk_listing 2 32000 None]\<rparr>)
   = compare_stats [mk_listing 1 30000 None, mk_listing 2 32000 None]"
proof -
  define UUID :: "string \<Rightarrow> uuid option" where "UUID = (\<lambda>x. if x = ''7'' then Some 7 else None)"
  define s where "s = \<lparr>cars = [\<lparr>car_ident = 7, user_id = 1\<rparr>, \<lparr>car_ident = 8, user_id = 1\<rparr>],
           listings = [mk_listing 1 30000 None, \<lparr>listing_id = 9, car_id = 8, price = 5, mileage = Some 3\<rparr>,
                       mk_listing 2 32000 None]\<rparr>"
  define s' where "s' = \<lparr>cars = [\<lparr>car_ident = 3, user_id = 2\<rparr>, \<lparr>car_ident = 7, user_id = 1\<rparr>],
           listings = [mk_listing 1 30000 None, mk_listing 2 32000 None]\<rparr>"
  have a: "UUID ''7'' = Some 7" by (simp add: UUID_def)
  have b: "filter (\<lambda>x. car_ident x = 7 \<and> user_id x = 1) (cars s) \<noteq> []" by (simp add: s_def)
  have c: "filter (\<lambda>x. car_ident x = 7 \<and> user_id x = 1) (cars s') \<noteq> []" by (simp add: s'_def)
  have d: "filter (\<lambda>l. car_id l = 7) (listings s) = filter (\<lambda>l. car_id l = 7) (listings s')"
    by (simp add: s_def s'_def mk_listing_def)
  have e: "filter (\<lambda>l. car_id l = 7) (listings s) = [mk_listing 1 30000 None, mk_listing 2 32000 None]"
    by (simp add: s_def mk_listing_def)
  from compare_car_listings_deterministic[of UUID "''7''" 7 1 s s', OF a b c d] e
  show ?thesis unfolding UUID_def s_def s'_def by simp
qed

text \<open>
  C8: the route handler leaves the table of listings and the table of cars as they were.
\<close>

theorem compare_car_listings_read_only:
  "listings (snd (compare_car_listings UUID cid u s)) = listings s
   \<and> cars (snd (compare_car_listings UUID cid u s)) = cars s"
  by (simp add: compare_car_listings_frame)

section \<open>Validation limits\<close>

text \<open>
  C10: the validators of \<^verbatim>\<open>ListingBase\<close> and \<^verbatim>\<open>ListingUpdate\<close> reject a price above
  10,000,000 and a mileage above 1,000,000 with a \<^verbatim>\<open>ValueError\<close>; an accepted price is the
  given one rounded to two decimal places: a multiple of 1/100 within 1/200 of it.
\<close>

theorem listing_validation_limits:
  "(10000000 < v \<longrightarrow>
      ListingBase_validate_price v = Inl (ValueError ''Price cannot exceed $10,000,000'')
      \<and> ListingUpdate_validate_price (Some v) = Inl (ValueError ''Price cannot exceed $10,000,000''))
   \<and> (1000000 < m \<longrightarrow>
      ListingBase_validate_mileage (Some m) = Inl (ValueError ''Mileage cannot exceed 1,000,000 miles'')
      \<and> ListingUpdate_validate_mileage (Some m) = Inl (ValueError ''Mileage cannot exceed 1,000,000 miles''))
   \<and> (ListingBase_validate_price w = Inr p \<longrightarrow>
        p = py_round2 w \<and> (\<exists>k::int. p = of_int k / 100) \<and> \<bar>p - w\<bar> \<le> 1 / 200)
   \<and> (ListingUpdate_validate_price (Some w) = Inr q \<longrightarrow>
        (\<exists>p. q = Some p \<and> p = py_round2 w \<and> (\<exists>k::int. p = of_int k / 100) \<and> \<bar>p - w\<bar> \<le> 1 / 200))"
  using py_round2_cents[of w] py_round2_near[of w]
  by (auto simp: ListingBase_validate_price_def ListingUpdate_validate_price_def
      ListingBase_validate_mileage_def ListingUpdate_validate_mileage_def split: if_splits)

text \<open>A price of 20,000,000 and a mileage of 2,000,000 are rejected; the price 0.125 is
  accepted as 0.12.\<close>

theorem listing_validation_limits_witness:
  "ListingBase_validate_price 20000000 = Inl (ValueError ''Price cannot exceed $10,000,000'')
   \<and> ListingUpdate_validate_price (Some 20000000) = Inl (ValueError ''Price cannot exceed $10,000,000'')
   \<and> ListingBase_validate_mileage (Some 2000000) = Inl (ValueError ''Mileage cannot exceed 1,000,000 miles'')
   \<and> ListingUpdate_validate_mileage (Some 2000000) = Inl (ValueError ''Mileage cannot exceed 1,000,000 miles'')
   \<and> ListingBase_validate_price (1 / 8) = Inr (3 / 25)
   \<and> ListingUpdate_validate_price (Some (1 / 8)) = Inr (Some (3 / 25))
   \<and> 3 / 25 = py_round2 (1 / 8)"
proof -
  have a: "ListingBase_validate_price (1 / 8) = Inr (3 / 25)"
    by code_simp
  have b: "ListingUpdate_validate_price (Some (1 / 8)) = Inr (Some (3 / 25))"
    by code_simp
  have c: "(10000000::rat) < 20000000" and d: "(1000000::int) < 2000000"
    by simp_all
  from listing_validation_limits[of 20000000 2000000 "1 / 8" "3 / 25" "Some (3 / 25)"] a b c d
  show ?thesis by blast
qed

end
